theory Spec2Isabelle
  imports Complex_Main
begin

section \<open>BDSpace: coordinate utilities and parametric curves\<close>

text \<open>
  The C doubles of the Cython sources are modelled as real numbers (\<open>M_PI\<close> is \<^term>\<open>pi\<close>),
  so every statement below is one of exact real arithmetic. A one-dimensional array
  (\<open>double[:]\<close>) is the list of its entries; an \<open>(N, 3)\<close> array is the list of its rows.
  Reads and writes outside an array are a value of \<open>error\<close>.
\<close>

datatype error = OutOfBounds | ValueError

subsection \<open>Angle reduction\<close>

text \<open>
  \<open>__reduce_angle(angle, center, positive)\<close>. The operator \<open>//\<close> on doubles is the floor of
  the quotient.
\<close>

definition priv_reduce_angle :: "real \<Rightarrow> bool \<Rightarrow> bool \<Rightarrow> real" where
  "priv_reduce_angle angle center positive =
     (let reduced_angle =
            (if \<bar>angle\<bar> > 2 * pi
             then angle - 2 * pi * of_int \<lfloor>angle / (2 * pi)\<rfloor>
             else angle);
          reduced_angle =
            (if center
             then (if reduced_angle < - pi then reduced_angle + 2 * pi
                   else if reduced_angle > pi then reduced_angle - 2 * pi
                   else reduced_angle)
             else reduced_angle);
          reduced_angle =
            (if positive
             then (if reduced_angle < 0 then reduced_angle + 2 * pi else reduced_angle)
             else reduced_angle)
      in reduced_angle)"


subsection \<open>Angle reduction on doubles\<close>

text \<open>
  On the C doubles of the program every sum, difference, product and quotient is
  rounded, which the model over the reals leaves out. This is the angle reduction with
  the rounding written out. \<open>M_PI\<close> is the double nearest to \<^term>\<open>pi\<close>.
\<close>

definition M_PI :: real where
  "M_PI = 884279719003555 / 2 ^ 48"

text \<open>
  Rounding to the nearest IEEE binary64 value, ties to the even mantissa: a value other
  than \<open>0\<close> is rounded to the nearest multiple of its unit in the last place, which is
  \<open>2\<close> to the power of its binary exponent less \<open>52\<close>, and \<open>2\<close> to the power \<open>-1074\<close> for
  the subnormal values. Results beyond the largest finite double are not modelled.
\<close>

definition round_half_even :: "real \<Rightarrow> int" where
  "round_half_even q =
     (let f = \<lfloor>q\<rfloor>
      in if q - of_int f < 1 / 2 then f
         else if 1 / 2 < q - of_int f then f + 1
         else if even f then f else f + 1)"

definition to_double :: "real \<Rightarrow> real" where
  "to_double x =
     (if x = 0 then 0
      else let e = max (\<lfloor>log 2 \<bar>x\<bar>\<rfloor> - 52) (- 1074);
               u = 2 powr of_int e
           in u * of_int (round_half_even (x / u)))"

text \<open>
  \<open>__reduce_angle\<close> on doubles: the function of the source with each arithmetic result
  rounded. The constant \<open>2 * M_PI\<close> is a double; the operator \<open>//\<close> on two C doubles is
  the floor of their rounded quotient; comparisons and \<open>fabs\<close> are exact. The argument is
  a double.
\<close>

definition double_reduce_angle :: "real \<Rightarrow> bool \<Rightarrow> bool \<Rightarrow> real" where
  "double_reduce_angle angle center positive =
     (let two_pi = to_double (2 * M_PI);
          reduced_angle =
            (if \<bar>angle\<bar> > two_pi
             then to_double (angle - to_double (two_pi * of_int \<lfloor>to_double (angle / two_pi)\<rfloor>))
             else angle);
          reduced_angle =
            (if center
             then (if reduced_angle < - M_PI then to_double (reduced_angle + two_pi)
                   else if reduced_angle > M_PI then to_double (reduced_angle - two_pi)
                   else reduced_angle)
             else reduced_angle);
          reduced_angle =
            (if positive
             then (if reduced_angle < 0 then to_double (reduced_angle + two_pi) else reduced_angle)
             else reduced_angle)
      in reduced_angle)"

subsection \<open>Vectors\<close>

text \<open>\<open>vector_norm\<close>: the loop adds the squares from left to right.\<close>

definition vector_norm :: "real list \<Rightarrow> real" where
  "vector_norm v = sqrt (foldl (\<lambda>result x. result + x * x) 0 v)"

definition unit_vector :: "real list \<Rightarrow> real list" where
  "unit_vector v =
     (let len = vector_norm v
      in if len = 0 then map (\<lambda>x. 0) v else map (\<lambda>x. x / len) v)"

definition priv_extend_vector_dimensions :: "real list \<Rightarrow> nat \<Rightarrow> real list" where
  "priv_extend_vector_dimensions v s = map (\<lambda>i. if i < length v then v ! i else 0) [0..<s]"

subsection \<open>Coordinate conversions\<close>

text \<open>
  \<open>atan2\<close> of the C library (not part of the repository), on the reals: the angle in
  \<open>(-pi, pi]\<close> of the point \<open>(x, y)\<close>, and \<open>0\<close> at the origin.
\<close>

definition atan2 :: "real \<Rightarrow> real \<Rightarrow> real" where
  "atan2 y x =
     (if 0 < x then arctan (y / x)
      else if x < 0 then (if 0 \<le> y then arctan (y / x) + pi else arctan (y / x) - pi)
      else if 0 < y then pi / 2
      else if y < 0 then - (pi / 2)
      else 0)"

text \<open>
  The single-point conversions. An input of fewer than three entries is replaced by a
  zero-padded copy; the copy, and not the caller's array, is what the function then
  works on. The conversions to cartesian coordinates write the reduced angle back into
  the array they work on, so they return the caller's array as it is after the call
  together with the result.
\<close>

definition priv_cartesian_to_spherical_point :: "real list \<Rightarrow> real list" where
  "priv_cartesian_to_spherical_point xyz0 =
     (let xyz = (if length xyz0 < 3 then priv_extend_vector_dimensions xyz0 3 else xyz0);
          xy = xyz ! 0 * xyz ! 0 + xyz ! 1 * xyz ! 1
      in [sqrt (xy + xyz ! 2 * xyz ! 2),
          atan2 (sqrt xy) (xyz ! 2),
          priv_reduce_angle (atan2 (xyz ! 1) (xyz ! 0)) False True])"

definition priv_spherical_to_cartesian_point :: "real list \<Rightarrow> real list \<times> real list" where
  "priv_spherical_to_cartesian_point r_theta_phi0 =
     (let s = length r_theta_phi0;
          r_theta_phi = (if s < 3 then priv_extend_vector_dimensions r_theta_phi0 3
                         else r_theta_phi0);
          r_theta_phi = r_theta_phi[2 := priv_reduce_angle (r_theta_phi ! 2) False True];
          xy = r_theta_phi ! 0 * sin (r_theta_phi ! 1);
          xyz = [xy * cos (r_theta_phi ! 2),
                 xy * sin (r_theta_phi ! 2),
                 r_theta_phi ! 0 * cos (r_theta_phi ! 1)]
      in (if s < 3 then r_theta_phi0 else r_theta_phi, xyz))"

definition priv_cartesian_to_cylindrical_point :: "real list \<Rightarrow> real list" where
  "priv_cartesian_to_cylindrical_point xyz0 =
     (let xyz = (if length xyz0 < 3 then priv_extend_vector_dimensions xyz0 3 else xyz0)
      in [sqrt (xyz ! 0 * xyz ! 0 + xyz ! 1 * xyz ! 1),
          atan2 (xyz ! 1) (xyz ! 0),
          xyz ! 2])"

definition priv_cylindrical_to_cartesian_point :: "real list \<Rightarrow> real list \<times> real list" where
  "priv_cylindrical_to_cartesian_point rho_phi_z0 =
     (let s = length rho_phi_z0;
          rho_phi_z = (if s < 3 then priv_extend_vector_dimensions rho_phi_z0 3
                       else rho_phi_z0);
          rho_phi_z = rho_phi_z[1 := priv_reduce_angle (rho_phi_z ! 1) False True];
          xyz = [rho_phi_z ! 0 * cos (rho_phi_z ! 1),
                 rho_phi_z ! 0 * sin (rho_phi_z ! 1),
                 rho_phi_z ! 2]
      in (if s < 3 then rho_phi_z0 else rho_phi_z, xyz))"



text \<open>
  The public conversions, on a one-dimensional array. An array of at most three entries
  goes to the single-point function. A longer one-dimensional array does not have the
  shape \<open>(N, 3)\<close> and raises \<open>ValueError\<close> (arrays of shape \<open>(N, 3)\<close> are flattened and go to
  the batched functions). The conversions to cartesian coordinates hand the caller's
  array on, so they too return it as it is after the call together with the result.
\<close>

definition cartesian_to_spherical :: "real list \<Rightarrow> error + real list" where
  "cartesian_to_spherical xyz =
     (if length xyz \<le> 3 then Inr (priv_cartesian_to_spherical_point xyz) else Inl ValueError)"

definition spherical_to_cartesian :: "real list \<Rightarrow> error + (real list \<times> real list)" where
  "spherical_to_cartesian r_theta_phi =
     (if length r_theta_phi \<le> 3 then Inr (priv_spherical_to_cartesian_point r_theta_phi)
      else Inl ValueError)"

definition cartesian_to_cylindrical :: "real list \<Rightarrow> error + real list" where
  "cartesian_to_cylindrical xyz =
     (if length xyz \<le> 3 then Inr (priv_cartesian_to_cylindrical_point xyz) else Inl ValueError)"

definition cylindrical_to_cartesian :: "real list \<Rightarrow> error + (real list \<times> real list)" where
  "cylindrical_to_cartesian rho_phi_z =
     (if length rho_phi_z \<le> 3 then Inr (priv_cylindrical_to_cartesian_point rho_phi_z)
      else Inl ValueError)"

subsection \<open>Parametric curves\<close>

text \<open>
  A curve object is the record of its methods and of its parameter domain. The three
  coordinate methods and the three tangent methods can each be overridden by a subclass,
  so each is a field; \<open>tangent_x_point c t step left right\<close> is the call
  \<open>c.tangent_x_point(t, step, left, right)\<close>. The methods are total functions on the reals.
\<close>

record curve =
  x_point :: "real \<Rightarrow> real"
  y_point :: "real \<Rightarrow> real"
  z_point :: "real \<Rightarrow> real"
  tangent_x_point :: "real \<Rightarrow> real \<Rightarrow> bool \<Rightarrow> bool \<Rightarrow> real"
  tangent_y_point :: "real \<Rightarrow> real \<Rightarrow> bool \<Rightarrow> bool \<Rightarrow> real"
  tangent_z_point :: "real \<Rightarrow> real \<Rightarrow> bool \<Rightarrow> bool \<Rightarrow> real"
  start :: real
  stop :: real

text \<open>
  The tangent methods of the base class \<open>ParametricCurve\<close>: a finite difference of the
  coordinate method, central when both \<open>left\<close> and \<open>right\<close> are set, backward when only
  \<open>left\<close> is, forward otherwise. The step is taken to be nonzero.
\<close>

definition base_tangent_point :: "(real \<Rightarrow> real) \<Rightarrow> real \<Rightarrow> real \<Rightarrow> bool \<Rightarrow> bool \<Rightarrow> real" where
  "base_tangent_point point t step left right =
     (let step2 = step / 2
      in if left \<and> right then (point (t + step2) - point (t - step2)) / step
         else if left then (point t - point (t - step)) / step
         else (point (t + step) - point t) / step)"

text \<open>
  A subclass that overrides the coordinate methods only inherits the finite differences;
  the base class itself is the subclass with all three coordinates \<open>0\<close>.
\<close>

definition subclass_of_points ::
  "(real \<Rightarrow> real) \<Rightarrow> (real \<Rightarrow> real) \<Rightarrow> (real \<Rightarrow> real) \<Rightarrow> real \<Rightarrow> real \<Rightarrow> curve" where
  "subclass_of_points fx fy fz start0 stop0 =
     \<lparr>x_point = fx, y_point = fy, z_point = fz,
      tangent_x_point = base_tangent_point fx,
      tangent_y_point = base_tangent_point fy,
      tangent_z_point = base_tangent_point fz,
      start = start0, stop = stop0\<rparr>"

definition ParametricCurve :: "real \<Rightarrow> real \<Rightarrow> curve" where
  "ParametricCurve start0 stop0 =
     subclass_of_points (\<lambda>t. 0) (\<lambda>t. 0) (\<lambda>t. 0) start0 stop0"

text \<open>
  \<open>Line\<close> and \<open>Arc\<close> override the coordinates and the tangents. The constructor of \<open>Arc\<close>
  orders the two semi-axes.
\<close>

definition Line :: "real \<times> real \<times> real \<Rightarrow> real \<Rightarrow> real \<Rightarrow> real \<Rightarrow> real \<Rightarrow> real \<Rightarrow> curve" where
  "Line origin a b c start0 stop0 =
     \<lparr>x_point = (\<lambda>t. fst origin + a * t),
      y_point = (\<lambda>t. fst (snd origin) + b * t),
      z_point = (\<lambda>t. snd (snd origin) + c * t),
      tangent_x_point = (\<lambda>t step left right. a),
      tangent_y_point = (\<lambda>t step left right. b),
      tangent_z_point = (\<lambda>t step left right. c),
      start = start0, stop = stop0\<rparr>"

definition Arc :: "real \<Rightarrow> real \<Rightarrow> real \<Rightarrow> real \<Rightarrow> bool \<Rightarrow> curve" where
  "Arc a b start0 stop0 right =
     (let a' = max a b; b' = min a b; direction = (if right then 1 else - 1)
      in \<lparr>x_point = (\<lambda>t. a' * cos t),
          y_point = (\<lambda>t. direction * b' * sin t),
          z_point = (\<lambda>t. 0),
          tangent_x_point = (\<lambda>t step left right. - a' * sin t),
          tangent_y_point = (\<lambda>t step left right. direction * b' * cos t),
          tangent_z_point = (\<lambda>t step left right. 0),
          start = start0, stop = stop0\<rparr>)"

text \<open>\<open>generate_points\<close>: the three coordinate methods at every parameter, in order.\<close>

definition generate_points :: "curve \<Rightarrow> real list \<Rightarrow> (real \<times> real \<times> real) list" where
  "generate_points c t = map (\<lambda>u. (x_point c u, y_point c u, z_point c u)) t"

text \<open>
  The batched \<open>tangent(t, step)\<close>, with \<open>s = t.shape[0] - 1\<close>. The rows \<open>0\<close> and \<open>s\<close> are
  written first (row \<open>s\<close> last, so it wins when \<open>s = 0\<close>), then the loop over
  \<open>range(1, s)\<close> writes the rows between them. Every row of the uninitialised result is
  written; on an empty \<open>t\<close> the unsigned \<open>s\<close> wraps around and the writes are out of
  bounds.
\<close>

definition tangent :: "curve \<Rightarrow> real list \<Rightarrow> real \<Rightarrow> error + (real \<times> real \<times> real) list" where
  "tangent c t step =
     (if t = [] then Inl OutOfBounds
      else
        let s = length t - 1;
            result = replicate (s + 1) (0, 0, 0);
            result = result[0 := (tangent_x_point c (t ! 0) step False True,
                                  tangent_y_point c (t ! 0) step False True,
                                  tangent_z_point c (t ! 0) step False True)];
            result = result[s := (tangent_x_point c (t ! s) step True False,
                                  tangent_y_point c (t ! s) step True False,
                                  tangent_z_point c (t ! s) step True False)]
        in Inr (fold (\<lambda>i result.
                        result[i := (tangent_x_point c (t ! s) step True True,
                                     tangent_y_point c (t ! s) step True True,
                                     tangent_z_point c (t ! s) step True True)])
                  [1..<s] result))"

subsection \<open>Meshes and the evaluation pass\<close>

text \<open>
  A mesh of the external library \<open>BDMesh\<close>, as far as the curve code reads and writes it:
  the physical nodes (\<open>mesh.num\<close> is their number; the physical coordinate of local node
  \<open>i\<close> is \<open>physical_nodes ! i\<close>), the step, and the two per-node arrays.
\<close>

record mesh =
  physical_nodes :: "real list"
  physical_step :: real
  solution :: "real list"
  residual :: "real list"

text \<open>
  The two expressions under the square roots of \<open>__length_tangent_mesh\<close>: the magnitude of
  a tangent row and the chord between two points.
\<close>

definition magnitude :: "real \<times> real \<times> real \<Rightarrow> real" where
  "magnitude v = (case v of (x, y, z) \<Rightarrow> sqrt (x * x + y * y + z * z))"

definition distance :: "real \<times> real \<times> real \<Rightarrow> real \<times> real \<times> real \<Rightarrow> real" where
  "distance p q =
     (case (p, q) of ((x0, y0, z0), (x1, y1, z1)) \<Rightarrow>
        (let dx = x1 - x0; dy = y1 - y0; dz = z1 - z0
         in sqrt (dx * dx + dy * dy + dz * dz)))"

text \<open>
  The body of the loop of \<open>__length_tangent_mesh\<close> for index \<open>i\<close>, on the state
  \<open>(solution, error, result_t_acc, result_p_acc)\<close>.
\<close>

definition length_tangent_step ::
  "real list \<Rightarrow> (real \<times> real \<times> real) list \<Rightarrow> (real \<times> real \<times> real) list \<Rightarrow> nat \<Rightarrow>
   real list \<times> real list \<times> real \<times> real \<Rightarrow> real list \<times> real list \<times> real \<times> real" where
  "length_tangent_step nodes xyz xyz_t i st =
     (case st of (sol, err, result_t_acc, result_p_acc) \<Rightarrow>
        (let result_p = distance (xyz ! i) (xyz ! (i + 1));
             dl1 = magnitude (xyz_t ! i);
             dl2 = magnitude (xyz_t ! (i + 1));
             result_t = (nodes ! (i + 1) - nodes ! i) * (dl1 + dl2) / 2
         in (sol[i + 1 := result_t],
             err[i + 1 := \<bar>result_t - result_p\<bar>],
             result_t_acc + result_t,
             result_p_acc + result_p)))"

text \<open>
  \<open>__length_tangent_mesh(mesh, tangent_step)\<close> returns the mesh with its \<open>solution\<close> and
  \<open>residual\<close> replaced, and the accumulated tangent length. Both arrays are allocated
  uninitialised; entry \<open>0\<close> is set to \<open>0\<close> and the loop writes every other entry.
\<close>

definition priv_length_tangent_mesh :: "curve \<Rightarrow> mesh \<Rightarrow> real \<Rightarrow> error + (mesh \<times> real)" where
  "priv_length_tangent_mesh c m tangent_step =
     (let num_points = length (physical_nodes m);
          xyz = generate_points c (physical_nodes m)
      in case tangent c (physical_nodes m) tangent_step of
           Inl e \<Rightarrow> Inl e
         | Inr xyz_t \<Rightarrow>
             (case fold (length_tangent_step (physical_nodes m) xyz xyz_t) [0..<num_points - 1]
                     ((replicate num_points 0)[0 := 0], (replicate num_points 0)[0 := 0], 0, 0) of
                (solution', error', result_t_acc, result_p_acc) \<Rightarrow>
                  Inr (m\<lparr>solution := solution', residual := error'\<rparr>, result_t_acc)))"

subsection \<open>The mesh tree and the refinement loop\<close>

text \<open>
  The tree of the external library maps each refinement level to the list of its meshes;
  here it is the list of these lists, level \<open>0\<close> first, so that \<open>max(levels)\<close> is the last
  index.

  The operations of the collaborators that \<open>mesh_tree\<close> and \<open>length\<close> call are not part of
  the sources. They are parameters of the model, gathered in one record: the constructor
  \<open>Mesh1DUniform(boundary_1, boundary_2, physical_step)\<close> (its two boundary conditions are
  always \<open>0\<close> and are left out), the selector
  \<open>refinement_points(mesh, threshold)\<close> of the module \<open>_helpers\<close>, and the methods
  \<open>remove_coarse_duplicates\<close> and \<open>flatten\<close> of the tree. A call of a collaborator is taken
  to return and to raise nothing. What the theorems assume of the collaborators beyond
  that is stated by the contract predicates below.
\<close>

type_synonym tree = "mesh list list"

record collab =
  Mesh1DUniform :: "real \<Rightarrow> real \<Rightarrow> real \<Rightarrow> mesh"
  refinement_points :: "mesh \<Rightarrow> real \<Rightarrow> (int \<times> int) list"
  remove_coarse_duplicates :: "tree \<Rightarrow> tree"
  flatten :: "tree \<Rightarrow> mesh"

text \<open>Modelled from the spec: the tree is created with the root mesh alone, at level \<open>0\<close>.\<close>

definition TreeMesh1DUniform :: "mesh \<Rightarrow> tree" where
  "TreeMesh1DUniform root_mesh = [[root_mesh]]"

text \<open>The list of meshes at a level; a level that is not there has no meshes.\<close>

definition tree_level :: "tree \<Rightarrow> nat \<Rightarrow> mesh list" where
  "tree_level tr level = (if level < length tr then tr ! level else [])"

text \<open>
  Modelled from the spec: \<open>add_mesh\<close> of the external tree, which inserts a mesh "at the
  correct (finer) level". The level follows from the step of the mesh; \<open>mesh_tree\<close> builds
  every refinement mesh with the step of its parent divided by the refinement
  coefficient, which is one level below the parent, and the model passes that level.
\<close>

definition add_mesh :: "tree \<Rightarrow> nat \<Rightarrow> mesh \<Rightarrow> tree" where
  "add_mesh tr level m =
     (if level < length tr then tr[level := tr ! level @ [m]]
      else tr @ replicate (level - length tr) [] @ [[m]])"

text \<open>
  The loop over the rows of \<open>refinements\<close>: each row is a pair of node indices of the mesh,
  and a refinement mesh between the two nodes, with half the step of the mesh
  (\<open>refinement_coefficient\<close> is \<open>2\<close>), is added to the tree.
\<close>

fun add_refinements :: "collab \<Rightarrow> mesh \<Rightarrow> nat \<Rightarrow> (int \<times> int) list \<Rightarrow> tree \<Rightarrow> error + tree" where
  "add_refinements L m level [] tr = Inr tr"
| "add_refinements L m level ((i0, i1) # refinements) tr =
     (let num = int (length (physical_nodes m))
      in if 0 \<le> i0 \<and> i0 < num \<and> 0 \<le> i1 \<and> i1 < num
         then add_refinements L m level refinements
                (add_mesh tr (Suc level)
                   (Mesh1DUniform L (physical_nodes m ! nat i0) (physical_nodes m ! nat i1)
                      (physical_step m / 2)))
         else Inl OutOfBounds)"

text \<open>
  The body of \<open>for mesh in meshes_tree.__tree[level]\<close> for the mesh at position \<open>idx\<close>: the
  evaluation pass writes into the mesh object, which stays where it is in the tree; then
  the refinement meshes are added and the tree is pruned. The second component is the
  number of refinement rows, by which \<open>to_refine\<close> grows.
\<close>

definition refine_mesh ::
  "collab \<Rightarrow> curve \<Rightarrow> real \<Rightarrow> real \<Rightarrow> nat \<Rightarrow> nat \<Rightarrow> tree \<Rightarrow> error + (tree \<times> nat)" where
  "refine_mesh L c precision tangent_step level idx tr =
     (case priv_length_tangent_mesh c (tree_level tr level ! idx) tangent_step of
        Inl e \<Rightarrow> Inl e
      | Inr (m, length_tangent) \<Rightarrow>
          (let tr1 = tr[level := (tree_level tr level)[idx := m]];
               refinements = refinement_points L m precision
           in case add_refinements L m level refinements tr1 of
                Inl e \<Rightarrow> Inl e
              | Inr tr2 \<Rightarrow> Inr (remove_coarse_duplicates L tr2, length refinements)))"

text \<open>
  The \<open>for\<close> loop walks the list of the level by position while the body changes the
  tree, as a Python list iterator does on a list that is changed under it: it ends when
  the position reaches the current length of the list. Whether it ends depends on the
  collaborators, so not returning is the value \<open>None\<close>.
\<close>

partial_function (option) sweep ::
  "collab \<Rightarrow> curve \<Rightarrow> real \<Rightarrow> real \<Rightarrow> nat \<Rightarrow> nat \<Rightarrow> tree \<Rightarrow> nat \<Rightarrow> (error + (tree \<times> nat)) option" where
  "sweep L c precision tangent_step level idx tr to_refine =
     (if idx < length (tree_level tr level)
      then (case refine_mesh L c precision tangent_step level idx tr of
              Inl e \<Rightarrow> Some (Inl e)
            | Inr (tr', k) \<Rightarrow>
                sweep L c precision tangent_step level (Suc idx) tr' (to_refine + k))
      else Some (Inr (tr, to_refine)))"

text \<open>
  The \<open>while\<close> loop of \<open>mesh_tree\<close>. The final value of \<open>iteration\<close>, the number of
  passes made, is returned with the tree. \<open>max\<close> of an empty list of levels raises
  \<open>ValueError\<close>.
\<close>

function mesh_tree_loop ::
  "collab \<Rightarrow> curve \<Rightarrow> real \<Rightarrow> nat \<Rightarrow> real \<Rightarrow> nat \<Rightarrow> tree \<Rightarrow> (error + (tree \<times> nat)) option" where
  "mesh_tree_loop L c precision max_iterations tangent_step iteration tr =
     (if iteration < max_iterations
      then (if tr = [] then Some (Inl ValueError)
            else case sweep L c precision tangent_step (length tr - 1) 0 tr 0 of
                   None \<Rightarrow> None
                 | Some (Inl e) \<Rightarrow> Some (Inl e)
                 | Some (Inr (tr', to_refine)) \<Rightarrow>
                     if to_refine = 0 then Some (Inr (tr', Suc iteration))
                     else mesh_tree_loop L c precision max_iterations tangent_step
                            (Suc iteration) tr')
      else Some (Inr (tr, iteration)))"
  by pat_completeness auto
termination
  by (relation "measure (\<lambda>(L, c, precision, max_iterations, tangent_step, iteration, tr).
                           max_iterations - iteration)") auto

declare mesh_tree_loop.simps [simp del]

definition mesh_tree ::
  "collab \<Rightarrow> curve \<Rightarrow> real \<Rightarrow> nat \<Rightarrow> real \<Rightarrow> (error + (tree \<times> nat)) option" where
  "mesh_tree L c precision max_iterations tangent_step =
     (let root_mesh = Mesh1DUniform L (start c) (stop c) ((stop c - start c) / 2);
          meshes_tree = TreeMesh1DUniform root_mesh
      in mesh_tree_loop L c precision max_iterations tangent_step 0 meshes_tree)"

text \<open>
  \<open>length(precision, max_iterations, tangent_step)\<close>: the entries of the flattened mesh's
  \<open>solution\<close>, one per node, added from left to right.
\<close>

definition length_curve ::
  "collab \<Rightarrow> curve \<Rightarrow> real \<Rightarrow> nat \<Rightarrow> real \<Rightarrow> (error + real) option" where
  "length_curve L c precision max_iterations tangent_step =
     (case mesh_tree L c precision max_iterations tangent_step of
        None \<Rightarrow> None
      | Some (Inl e) \<Rightarrow> Some (Inl e)
      | Some (Inr (meshes_tree, iterations)) \<Rightarrow>
          (let flat_mesh = flatten L meshes_tree;
               num = length (physical_nodes flat_mesh)
           in if length (solution flat_mesh) < num then Some (Inl OutOfBounds)
              else Some (Inr (foldl (\<lambda>length_tangent i. length_tangent + solution flat_mesh ! i)
                                0 [0..<num]))))"

subsection \<open>The contract of the collaborators\<close>

text \<open>
  Modelled from the spec: the constructor of the external library gives "a uniform 1-D
  mesh over a physical sub-interval" whose physical nodes are "an ordered sequence of
  parameter samples". The nodes are a non-empty ascending list that starts at the lower
  and ends at the upper of the two boundaries.
\<close>

definition mesh_contract :: "collab \<Rightarrow> bool" where
  "mesh_contract L \<longleftrightarrow>
     (\<forall>b1 b2 st.
        physical_nodes (Mesh1DUniform L b1 b2 st) \<noteq> [] \<and>
        sorted (physical_nodes (Mesh1DUniform L b1 b2 st)) \<and>
        hd (physical_nodes (Mesh1DUniform L b1 b2 st)) = min b1 b2 \<and>
        last (physical_nodes (Mesh1DUniform L b1 b2 st)) = max b1 b2)"

text \<open>
  Modelled from the spec: \<open>refinement_points\<close> of the module \<open>_helpers\<close>, which is not in the
  sources, "returns the list of index-pairs (local node intervals) whose residual exceeds
  the threshold". Its indices are node indices of the mesh, and it returns no pair when
  no residual of the mesh exceeds the threshold.
\<close>

definition selector_contract :: "collab \<Rightarrow> bool" where
  "selector_contract L \<longleftrightarrow>
     (\<forall>m threshold.
        (\<forall>p\<in>set (refinement_points L m threshold).
           0 \<le> fst p \<and> fst p < int (length (physical_nodes m)) \<and>
           0 \<le> snd p \<and> snd p < int (length (physical_nodes m))) \<and>
        ((\<forall>r\<in>set (residual m). r \<le> threshold) \<longrightarrow> refinement_points L m threshold = []))"

text \<open>
  Modelled from the spec: \<open>remove_coarse_duplicates\<close> of the external tree is the "removal
  of coarser meshes made redundant by finer overlapping children". It keeps the levels,
  it only ever removes meshes from a level, and a tree of a single level, where no mesh
  has a finer one above it, is left as it is.
\<close>

definition prune_contract :: "collab \<Rightarrow> bool" where
  "prune_contract L \<longleftrightarrow>
     (\<forall>tr.
        length (remove_coarse_duplicates L tr) = length tr \<and>
        (\<forall>l<length tr.
           length (remove_coarse_duplicates L tr ! l) \<le> length (tr ! l) \<and>
           set (remove_coarse_duplicates L tr ! l) \<subseteq> set (tr ! l)) \<and>
        (length tr = 1 \<longrightarrow> remove_coarse_duplicates L tr = tr))"

text \<open>
  Modelled from the spec: \<open>flatten\<close> of the external tree is the "flattening of the whole
  tree into one ordered, non-overlapping mesh exposing the final solution array". For a
  tree that holds one mesh, these are the nodes and the solution of that mesh.
\<close>

definition flatten_contract :: "collab \<Rightarrow> bool" where
  "flatten_contract L \<longleftrightarrow>
     (\<forall>m. physical_nodes (flatten L [[m]]) = physical_nodes m \<and>
          solution (flatten L [[m]]) = solution m)"


subsection \<open>A reference implementation of the collaborators\<close>

text \<open>
  Modelled from the spec: one implementation of the four operations, which shows that
  the contracts can be met together. The uniform mesh over an interval has its nodes at
  equal distances, at least two of them, the number of intervals being the length
  divided by the step, rounded up.
\<close>

definition uniform_mesh :: "real \<Rightarrow> real \<Rightarrow> real \<Rightarrow> mesh" where
  "uniform_mesh b1 b2 st =
     (let lo = min b1 b2; hi = max b1 b2;
          n = (if st \<le> 0 \<or> hi - lo \<le> st then 1 else nat \<lceil>(hi - lo) / st\<rceil>)
      in \<lparr>physical_nodes = map (\<lambda>k. lo + (hi - lo) * real k / real n) [0..<Suc n],
          physical_step = (hi - lo) / real n,
          solution = replicate (Suc n) 0,
          residual = replicate (Suc n) 0\<rparr>)"

text \<open>
  Modelled from the spec: the selector returns the interval \<open>(i - 1, i)\<close> for every node
  \<open>i\<close> whose residual exceeds the threshold.
\<close>

definition residual_intervals :: "mesh \<Rightarrow> real \<Rightarrow> (int \<times> int) list" where
  "residual_intervals m threshold =
     map (\<lambda>i. (int i - 1, int i))
       (filter (\<lambda>i. residual m ! i > threshold)
          [1..<min (length (physical_nodes m)) (length (residual m))])"

text \<open>
  Modelled from the spec: a mesh is superseded when a mesh of a finer level spans its
  interval; pruning removes the superseded meshes of every level.
\<close>

definition covers :: "mesh \<Rightarrow> mesh \<Rightarrow> bool" where
  "covers fine coarse \<longleftrightarrow>
     physical_nodes fine \<noteq> [] \<and> physical_nodes coarse \<noteq> [] \<and>
     hd (physical_nodes fine) \<le> hd (physical_nodes coarse) \<and>
     last (physical_nodes coarse) \<le> last (physical_nodes fine)"

definition prune_covered :: "tree \<Rightarrow> tree" where
  "prune_covered tr =
     map (\<lambda>l. filter (\<lambda>m. \<not> (\<exists>fine\<in>set (concat (drop (Suc l) tr)). covers fine m)) (tr ! l))
       [0..<length tr]"

text \<open>
  Modelled from the spec: the flat mesh lists the meshes of the tree in the order of
  their first nodes.
\<close>

definition concat_meshes :: "tree \<Rightarrow> mesh" where
  "concat_meshes tr =
     (let ms = sort_key (\<lambda>m. hd (physical_nodes m)) (concat tr)
      in \<lparr>physical_nodes = concat (map physical_nodes ms),
          physical_step = 0,
          solution = concat (map solution ms),
          residual = concat (map residual ms)\<rparr>)"

definition reference_collab :: collab where
  "reference_collab =
     \<lparr>Mesh1DUniform = uniform_mesh,
      refinement_points = residual_intervals,
      remove_coarse_duplicates = prune_covered,
      flatten = concat_meshes\<rparr>"

section \<open>Theorems\<close>

subsection \<open>Angle reduction\<close>

lemma floor_reduction_range:
  fixes a :: real
  shows "0 \<le> a - 2 * pi * of_int \<lfloor>a / (2 * pi)\<rfloor>"
    and "a - 2 * pi * of_int \<lfloor>a / (2 * pi)\<rfloor> < 2 * pi"
proof -
  define k :: real where "k = of_int \<lfloor>a / (2 * pi)\<rfloor>"
  have p: "0 < 2 * pi" by simp
  have "k \<le> a / (2 * pi)" unfolding k_def by simp
  then have lo: "k * (2 * pi) \<le> a"
    using p pos_le_divide_eq[of "2 * pi" k a] by blast
  have "a / (2 * pi) < k + 1" unfolding k_def by linarith
  then have hi: "a < (k + 1) * (2 * pi)"
    using p pos_divide_less_eq[of "2 * pi" a "k + 1"] by blast
  show "0 \<le> a - 2 * pi * of_int \<lfloor>a / (2 * pi)\<rfloor>"
    using lo unfolding k_def by (simp add: mult.commute)
  show "a - 2 * pi * of_int \<lfloor>a / (2 * pi)\<rfloor> < 2 * pi"
    using hi unfolding k_def by (simp add: algebra_simps)
qed




lemma floor_log2:
  assumes "2 powr of_int k \<le> x" "x < 2 powr of_int (k + 1)"
  shows "\<lfloor>log 2 x\<rfloor> = k"
proof -
  have pos: "0 < x" using assms(1) powr_gt_zero[of 2 "of_int k"] by linarith
  have "of_int k \<le> log 2 x" using assms(1) pos by (simp add: le_log_iff)
  moreover have "log 2 x < of_int k + 1" using assms(2) pos by (simp add: log_less_iff add.commute)
  ultimately show ?thesis by (intro floor_unique) simp_all
qed

lemma to_double_in_binade:
  assumes "4 \<le> \<bar>x\<bar>" "\<bar>x\<bar> < 8"
  shows "to_double x = of_int (round_half_even (x * 2 ^ 50)) / 2 ^ 50"
proof -
  have "\<lfloor>log 2 \<bar>x\<bar>\<rfloor> = 2" using assms by (intro floor_log2) simp_all
  moreover have "x \<noteq> 0" using assms by auto
  ultimately show ?thesis
    by (simp add: to_double_def Let_def powr_minus field_simps)
qed

lemma two_pi_double: "to_double (2 * M_PI) = 2 * M_PI"
proof -
  have r: "4 \<le> \<bar>2 * M_PI\<bar>" "\<bar>2 * M_PI\<bar> < 8" by (simp_all add: M_PI_def)
  have "2 * M_PI * 2 ^ 50 = of_int 7074237752028440" by (simp add: M_PI_def)
  then have "round_half_even (2 * M_PI * 2 ^ 50) = 7074237752028440"
    by (simp only: round_half_even_def Let_def floor_of_int) simp
  then show ?thesis using to_double_in_binade[OF r] by (simp add: M_PI_def)
qed

lemma tiny_plus_two_pi:
  "to_double (- (6646139978924579 / 2 ^ 119) + 2 * M_PI) = 2 * M_PI"
proof -
  define y :: real where "y = - (6646139978924579 / 2 ^ 119) + 2 * M_PI"
  have r: "4 \<le> \<bar>y\<bar>" "\<bar>y\<bar> < 8" by (simp_all add: y_def M_PI_def)
  have v: "y * 2 ^ 50 = 7074237752028440 - 6646139978924579 / 2 ^ 69"
    by (simp add: y_def M_PI_def field_simps)
  have f: "\<lfloor>y * 2 ^ 50\<rfloor> = 7074237752028439"
    unfolding v by (intro floor_unique) simp_all
  have "round_half_even (y * 2 ^ 50) = 7074237752028440"
    unfolding round_half_even_def Let_def f unfolding v by simp
  then show ?thesis using to_double_in_binade[OF r] unfolding y_def by (simp add: M_PI_def)
qed

lemma tiny_is_double:
  "to_double (- (6646139978924579 / 2 ^ 119)) = - (6646139978924579 / 2 ^ 119)"
proof -
  define x :: real where "x = - (6646139978924579 / 2 ^ 119)"
  have "\<lfloor>log 2 \<bar>x\<bar>\<rfloor> = - 67"
    by (intro floor_log2) (simp_all add: x_def powr_minus field_simps)
  moreover have "x \<noteq> 0" by (simp add: x_def)
  moreover have "x / (2 powr (- 119)) = of_int (- 6646139978924579)"
    by (simp add: x_def powr_minus field_simps)
  moreover have "round_half_even (of_int (- 6646139978924579)) = - 6646139978924579"
    by (simp only: round_half_even_def Let_def floor_of_int) simp
  ultimately show ?thesis
    unfolding x_def[symmetric] by (simp add: to_double_def Let_def) (simp add: x_def powr_minus)
qed

text \<open>
  C7, as stated, fails on the doubles of the program. With both flags set, the double
  \<open>-1e-20\<close> (which is \<open>- 6646139978924579 / 2 ^ 119\<close>) is reduced to \<open>2 * M_PI\<close>, because the
  sum with \<open>2 * M_PI\<close> rounds to \<open>2 * M_PI\<close>; reducing \<open>2 * M_PI\<close> again subtracts \<open>2 * M_PI\<close>
  and gives \<open>0\<close>.
\<close>

theorem double_reduce_angle_not_idempotent:
  "to_double (- (6646139978924579 / 2 ^ 119)) = - (6646139978924579 / 2 ^ 119) \<and>
   double_reduce_angle (- (6646139978924579 / 2 ^ 119)) True True = 2 * M_PI \<and>
   double_reduce_angle (double_reduce_angle (- (6646139978924579 / 2 ^ 119)) True True) True True = 0 \<and>
   double_reduce_angle (double_reduce_angle (- (6646139978924579 / 2 ^ 119)) True True) True True \<noteq>
     double_reduce_angle (- (6646139978924579 / 2 ^ 119)) True True"
proof -
  have a: "double_reduce_angle (- (6646139978924579 / 2 ^ 119)) True True = 2 * M_PI"
    unfolding double_reduce_angle_def Let_def two_pi_double
    using tiny_plus_two_pi by (simp add: M_PI_def)
  have z: "to_double 0 = 0" by (simp add: to_double_def)
  have b: "double_reduce_angle (2 * M_PI) True True = 0"
    unfolding double_reduce_angle_def Let_def two_pi_double
    by (simp add: z) (simp add: M_PI_def)
  have c: "2 * M_PI \<noteq> 0" by (simp add: M_PI_def)
  show ?thesis using a b c tiny_is_double by simp
qed
text \<open>
  C7, amended: in exact real arithmetic angle reduction is idempotent. For every real
  angle and every setting of the two flags, reducing the reduced angle again returns it
  unchanged.
\<close>

theorem reduce_angle_idempotent:
  "priv_reduce_angle (priv_reduce_angle theta center positive) center positive =
   priv_reduce_angle theta center positive"
  using floor_reduction_range[of theta] pi_gt_zero
  by (cases center; cases positive)
     (auto simp: priv_reduce_angle_def Let_def abs_if split: if_splits)

text \<open>
  With \<open>center = True\<close> and \<open>positive = False\<close>, the defaults of \<open>__reduce_angle\<close>, the
  reduced angle lies between \<open>- pi\<close> and \<open>pi\<close>.
\<close>

theorem reduce_angle_centered_range:
  "- pi \<le> priv_reduce_angle theta True False \<and> priv_reduce_angle theta True False \<le> pi"
  using floor_reduction_range[of theta] pi_gt_zero
  by (auto simp: priv_reduce_angle_def Let_def abs_if split: if_splits)

subsection \<open>Vectors\<close>

lemma foldl_squares: "foldl (\<lambda>result x. result + x * x) a v = a + (\<Sum>x\<leftarrow>v. x * x)"
  by (induction v arbitrary: a) (simp_all add: add.assoc)

lemma vector_norm_sum: "vector_norm v = sqrt (\<Sum>x\<leftarrow>v. x * x)"
  by (simp add: vector_norm_def foldl_squares)

lemma sum_squares_nonneg: "0 \<le> (\<Sum>x\<leftarrow>v. x * (x::real))"
  by (induction v) simp_all

lemma sum_squares_scaled: "(\<Sum>x\<leftarrow>map (\<lambda>x. x / l) v. x * x) = (\<Sum>x\<leftarrow>v. x * x) / (l * (l::real))"
  by (induction v) (simp_all add: add_divide_distrib)

text \<open>
  C9: for every vector whose Euclidean norm is not zero, the norm of its unit vector is
  \<open>1\<close>; for every vector of zeros, \<open>unit_vector\<close> returns the vector of zeros of the same
  size.
\<close>

theorem unit_vector_norm:
  "(vector_norm v \<noteq> 0 \<longrightarrow> vector_norm (unit_vector v) = 1) \<and>
   ((\<forall>x\<in>set v. x = 0) \<longrightarrow> unit_vector v = replicate (length v) 0)"
proof (intro conjI impI)
  assume nz: "vector_norm v \<noteq> 0"
  define l where "l = vector_norm v"
  have l2: "l * l = (\<Sum>x\<leftarrow>v. x * x)"
    unfolding l_def vector_norm_sum using sum_squares_nonneg[of v] by simp
  have lnz: "l \<noteq> 0" using nz l_def by simp
  have q: "(\<Sum>x\<leftarrow>v. x * x) / (l * l) = 1"
    using lnz by (simp add: l2[symmetric])
  have "vector_norm (map (\<lambda>x. x / l) v) = sqrt ((\<Sum>x\<leftarrow>v. x * x) / (l * l))"
    by (simp only: vector_norm_sum sum_squares_scaled)
  also have "\<dots> = 1" by (simp only: q real_sqrt_one)
  finally have "vector_norm (map (\<lambda>x. x / l) v) = 1" .
  then show "vector_norm (unit_vector v) = 1"
    using nz by (simp add: unit_vector_def Let_def l_def)
next
  assume z: "\<forall>x\<in>set v. x = 0"
  then have "(\<Sum>x\<leftarrow>v. x * x) = 0" by (induction v) simp_all
  then have "vector_norm v = 0" by (simp add: vector_norm_sum)
  moreover have "map (\<lambda>x. x / l) v = replicate (length v) 0" for l
    using z by (induction v) simp_all
  ultimately show "unit_vector v = replicate (length v) 0"
    by (simp add: unit_vector_def Let_def map_replicate_const)
qed

theorem unit_vector_norm_witness:
  "vector_norm [3, 4] \<noteq> 0 \<and> vector_norm (unit_vector [3, 4]) = 1 \<and>
   unit_vector [0, 0, 0] = [0, 0, 0]"
proof -
  have a: "vector_norm [3, 4] \<noteq> 0" by (simp add: vector_norm_def)
  have b: "\<forall>x\<in>set [0, 0, 0::real]. x = 0" by simp
  have c: "replicate (length [0, 0, 0::real]) (0::real) = [0, 0, 0]" by (simp add: numeral_3_eq_3)
  show ?thesis
    using a b c unit_vector_norm[of "[3, 4]"] unit_vector_norm[of "[0, 0, 0]"] by simp
qed

subsection \<open>Coordinate conversions\<close>

lemma cos_floor_shift: "cos (a - 2 * pi * of_int k) = cos a"
  by (simp add: cos_diff sin_int_2pin cos_int_2pin)

lemma sin_floor_shift: "sin (a - 2 * pi * of_int k) = sin a"
  by (simp add: sin_diff sin_int_2pin cos_int_2pin)

lemma cos_minus_two_pi: "cos (a - 2 * pi) = cos a"
  by (simp add: cos_diff)

lemma sin_minus_two_pi: "sin (a - 2 * pi) = sin a"
  by (simp add: sin_diff)

lemma cos_fold_shift:
  "cos (if P then r + 2 * pi else if Q then r - 2 * pi else r) = cos r"
  by (simp add: cos_minus_two_pi)

lemma sin_fold_shift:
  "sin (if P then r + 2 * pi else if Q then r - 2 * pi else r) = sin r"
  by (simp add: sin_minus_two_pi)

lemma cos_priv_reduce_angle: "cos (priv_reduce_angle a c p) = cos a"
proof -
  have 1: "cos (if \<bar>a\<bar> > 2 * pi then a - 2 * pi * of_int \<lfloor>a / (2 * pi)\<rfloor> else a) = cos a"
    by (simp add: cos_floor_shift)
  have 2: "cos (if c then (if r < - pi then r + 2 * pi else if r > pi then r - 2 * pi else r) else r)
           = cos r" for r
    by (simp add: cos_minus_two_pi)
  have 3: "cos (if p then (if r < 0 then r + 2 * pi else r) else r) = cos r" for r
    by simp
  show ?thesis
    unfolding priv_reduce_angle_def Let_def by (simp only: 1 2 3)
qed

lemma sin_priv_reduce_angle: "sin (priv_reduce_angle a c p) = sin a"
proof -
  have 1: "sin (if \<bar>a\<bar> > 2 * pi then a - 2 * pi * of_int \<lfloor>a / (2 * pi)\<rfloor> else a) = sin a"
    by (simp add: sin_floor_shift)
  have 2: "sin (if c then (if r < - pi then r + 2 * pi else if r > pi then r - 2 * pi else r) else r)
           = sin r" for r
    by (simp add: sin_minus_two_pi)
  have 3: "sin (if p then (if r < 0 then r + 2 * pi else r) else r) = sin r" for r
    by simp
  show ?thesis
    unfolding priv_reduce_angle_def Let_def by (simp only: 1 2 3)
qed

text \<open>
  Angle reduction changes an angle by whole turns only: for every setting of the flags
  the reduced angle has the cosine and the sine of the angle.
\<close>

theorem reduce_angle_keeps_direction:
  "cos (priv_reduce_angle theta center positive) = cos theta \<and>
   sin (priv_reduce_angle theta center positive) = sin theta"
  by (simp add: cos_priv_reduce_angle sin_priv_reduce_angle)

lemma sqrt_sum_squares_factor:
  assumes "x \<noteq> 0"
  shows "sqrt (x * x + y * y) = \<bar>x\<bar> * sqrt (1 + (y / x)\<^sup>2)"
proof -
  have "x * x + y * y = (x * x) * (1 + (y / x)\<^sup>2)"
    using assms by (simp add: power2_eq_square field_simps)
  then have "sqrt (x * x + y * y) = sqrt (x * x) * sqrt (1 + (y / x)\<^sup>2)"
    by (simp only: real_sqrt_mult)
  then show ?thesis by simp
qed

lemma sqrt_one_plus_square_pos: "0 < sqrt (1 + (u::real)\<^sup>2)"
  by (simp add: add_pos_nonneg)

lemma atan2_cos: "sqrt (x * x + y * y) * cos (atan2 y x) = x"
proof -
  consider "0 < x" | "x < 0" | "x = 0" by linarith
  then show ?thesis
  proof cases
    case 1
    then show ?thesis
      using sqrt_one_plus_square_pos[of "y / x"]
      by (simp add: atan2_def sqrt_sum_squares_factor cos_arctan)
  next
    case 2
    then show ?thesis
      using sqrt_one_plus_square_pos[of "y / x"]
      by (simp add: atan2_def sqrt_sum_squares_factor cos_arctan cos_add cos_diff)
  next
    case 3
    then show ?thesis by (simp add: atan2_def)
  qed
qed

lemma atan2_sin: "sqrt (x * x + y * y) * sin (atan2 y x) = y"
proof -
  consider "0 < x" | "x < 0" | "x = 0" by linarith
  then show ?thesis
  proof cases
    case 1
    then show ?thesis
      using sqrt_one_plus_square_pos[of "y / x"]
      by (simp add: atan2_def sqrt_sum_squares_factor sin_arctan)
  next
    case 2
    then show ?thesis
      using sqrt_one_plus_square_pos[of "y / x"]
      by (simp add: atan2_def sqrt_sum_squares_factor sin_arctan sin_add sin_diff)
  next
    case 3
    then show ?thesis by (simp add: atan2_def)
  qed
qed


lemma spherical_radius_sin:
  "sqrt (x * x + y * y + z * z) * sin (atan2 (sqrt (x * x + y * y)) z) = sqrt (x * x + y * y)"
proof -
  have "sqrt (x * x + y * y) * sqrt (x * x + y * y) = x * x + y * y" by simp
  then have "z * z + sqrt (x * x + y * y) * sqrt (x * x + y * y) = x * x + y * y + z * z"
    by simp
  then show ?thesis using atan2_sin[of z "sqrt (x * x + y * y)"] by (simp add: add.commute)
qed

lemma spherical_radius_cos:
  "sqrt (x * x + y * y + z * z) * cos (atan2 (sqrt (x * x + y * y)) z) = z"
proof -
  have "sqrt (x * x + y * y) * sqrt (x * x + y * y) = x * x + y * y" by simp
  then have "z * z + sqrt (x * x + y * y) * sqrt (x * x + y * y) = x * x + y * y + z * z"
    by simp
  then show ?thesis using atan2_cos[of z "sqrt (x * x + y * y)"] by (simp add: add.commute)
qed

lemma spherical_round_trip_triple:
  "snd (priv_spherical_to_cartesian_point (priv_cartesian_to_spherical_point [x, y, z])) =
   [x, y, z]"
  by (simp add: priv_spherical_to_cartesian_point_def priv_cartesian_to_spherical_point_def
      Let_def cos_priv_reduce_angle sin_priv_reduce_angle spherical_radius_sin
      spherical_radius_cos atan2_cos atan2_sin)

lemma cylindrical_round_trip_triple:
  "snd (priv_cylindrical_to_cartesian_point (priv_cartesian_to_cylindrical_point [x, y, z])) =
   [x, y, z]"
  by (simp add: priv_cylindrical_to_cartesian_point_def priv_cartesian_to_cylindrical_point_def
      Let_def cos_priv_reduce_angle sin_priv_reduce_angle atan2_cos atan2_sin)

lemma to_spherical_length: "length (priv_cartesian_to_spherical_point xyz) = 3"
  by (simp add: priv_cartesian_to_spherical_point_def Let_def)

lemma to_cylindrical_length: "length (priv_cartesian_to_cylindrical_point xyz) = 3"
  by (simp add: priv_cartesian_to_cylindrical_point_def Let_def)

lemma triple_list: "length p = 3 \<Longrightarrow> \<exists>x y z. p = [x, y, z]"
  by (auto simp: length_Suc_conv numeral_3_eq_3)

text \<open>
  C8: for every cartesian triple \<open>p\<close>, converting to spherical coordinates and back returns
  \<open>p\<close>, and so does converting to cylindrical coordinates and back (in exact real
  arithmetic). Neither conversion raises.
\<close>

theorem coordinate_round_trip:
  "length p = 3 \<Longrightarrow>
     (\<exists>r_theta_phi after.
        cartesian_to_spherical p = Inr r_theta_phi \<and>
        spherical_to_cartesian r_theta_phi = Inr (after, p)) \<and>
     (\<exists>rho_phi_z after.
        cartesian_to_cylindrical p = Inr rho_phi_z \<and>
        cylindrical_to_cartesian rho_phi_z = Inr (after, p))"
proof -
  assume "length p = 3"
  then obtain x y z where p: "p = [x, y, z]" using triple_list by blast
  have "spherical_to_cartesian (priv_cartesian_to_spherical_point p) =
          Inr (fst (priv_spherical_to_cartesian_point (priv_cartesian_to_spherical_point p)), p)"
    unfolding p spherical_to_cartesian_def
    using spherical_round_trip_triple[of x y z]
    by (simp add: to_spherical_length prod_eq_iff)
  moreover have "cylindrical_to_cartesian (priv_cartesian_to_cylindrical_point p) =
          Inr (fst (priv_cylindrical_to_cartesian_point (priv_cartesian_to_cylindrical_point p)), p)"
    unfolding p cylindrical_to_cartesian_def
    using cylindrical_round_trip_triple[of x y z]
    by (simp add: to_cylindrical_length prod_eq_iff)
  ultimately show ?thesis
    using \<open>length p = 3\<close> by (simp add: cartesian_to_spherical_def cartesian_to_cylindrical_def)
qed

theorem coordinate_round_trip_witness:
  "length [1, 2, 2 :: real] = 3 \<and>
   (\<exists>r_theta_phi after.
      cartesian_to_spherical [1, 2, 2] = Inr r_theta_phi \<and>
      spherical_to_cartesian r_theta_phi = Inr (after, [1, 2, 2])) \<and>
   (\<exists>rho_phi_z after.
      cartesian_to_cylindrical [1, 2, 2] = Inr rho_phi_z \<and>
      cylindrical_to_cartesian rho_phi_z = Inr (after, [1, 2, 2]))"
proof -
  have h: "length [1, 2, 2 :: real] = 3" by simp
  show ?thesis using h coordinate_round_trip[OF h] by blast
qed

subsection \<open>In-place reduction of the angle\<close>












subsection \<open>Batched tangents and the evaluation pass\<close>

lemma fold_update_length:
  "length (fold (\<lambda>i r. r[i := v]) js r) = length r"
  by (induction js arbitrary: r) simp_all

lemma fold_update_nth:
  "j < length r \<Longrightarrow> fold (\<lambda>i r. r[i := v]) js r ! j = (if j \<in> set js then v else r ! j)"
  by (induction js arbitrary: r) (auto simp: nth_list_update)

lemma tangent_rows:
  assumes "t \<noteq> []"
  shows "\<exists>rows. tangent c t step = Inr rows \<and> length rows = length t \<and>
           (\<forall>i<length t. rows ! i =
              (if i = length t - 1
               then (tangent_x_point c (t ! (length t - 1)) step True False,
                     tangent_y_point c (t ! (length t - 1)) step True False,
                     tangent_z_point c (t ! (length t - 1)) step True False)
               else if i = 0
               then (tangent_x_point c (t ! 0) step False True,
                     tangent_y_point c (t ! 0) step False True,
                     tangent_z_point c (t ! 0) step False True)
               else (tangent_x_point c (t ! (length t - 1)) step True True,
                     tangent_y_point c (t ! (length t - 1)) step True True,
                     tangent_z_point c (t ! (length t - 1)) step True True)))"
proof -
  define s where "s = length t - 1"
  define F where "F = (tangent_x_point c (t ! 0) step False True,
                       tangent_y_point c (t ! 0) step False True,
                       tangent_z_point c (t ! 0) step False True)"
  define B where "B = (tangent_x_point c (t ! s) step True False,
                       tangent_y_point c (t ! s) step True False,
                       tangent_z_point c (t ! s) step True False)"
  define M where "M = (tangent_x_point c (t ! s) step True True,
                       tangent_y_point c (t ! s) step True True,
                       tangent_z_point c (t ! s) step True True)"
  define r2 where "r2 = ((replicate (s + 1) (0, 0, 0))[0 := F])[s := B]"
  define rows where "rows = fold (\<lambda>i result. result[i := M]) [1..<s] r2"
  from assms have n: "s + 1 = length t" unfolding s_def by (cases t) simp_all
  have len2: "length r2 = length t" unfolding r2_def using n by simp
  have eq: "tangent c t step = Inr rows"
    using assms unfolding tangent_def rows_def r2_def F_def B_def M_def s_def Let_def
    by simp
  have len: "length rows = length t"
    unfolding rows_def using len2 by (simp add: fold_update_length)
  have nth: "rows ! i = (if i = s then B else if i = 0 then F else M)" if i: "i < length t" for i
  proof -
    have i2: "i < length r2" using i len2 by simp
    have "rows ! i = (if i \<in> set [1..<s] then M else r2 ! i)"
      unfolding rows_def using i2 by (rule fold_update_nth)
    moreover have "r2 ! i = (if i = s then B else if i = 0 then F else (0, 0, 0))"
      unfolding r2_def using i n by (auto simp: nth_list_update)
    moreover have "i \<in> set [1..<s] \<longleftrightarrow> i \<noteq> 0 \<and> i \<noteq> s" using i n by auto
    ultimately show ?thesis by (cases "i = s"; cases "i = 0"; simp)
  qed
  show ?thesis
    using eq len nth unfolding F_def B_def M_def s_def by (intro exI[of _ rows]) simp
qed

text \<open>
  C1 does not hold of the code. The loop of the batched \<open>tangent\<close> evaluates the tangent
  methods at \<open>t[s]\<close>, the last parameter, for every interior row (\<open>tangent_rows\<close> above), where the per-coordinate
  methods \<open>tangent_x\<close>, \<open>tangent_y\<close>, \<open>tangent_z\<close> use \<open>t[i]\<close>. For the unit circle sampled at
  \<open>0\<close>, \<open>pi / 2\<close>, \<open>pi\<close> the middle row is the tangent at \<open>pi\<close>, not the tangent at \<open>pi / 2\<close>.
  For a subclass with the coordinates \<open>(t * t, t, 0)\<close> and the finite differences of the
  base class, sampled at \<open>0\<close>, \<open>1\<close>, \<open>2\<close> with step \<open>1\<close>, the middle row holds the central
  difference at \<open>2\<close>, which is \<open>4\<close>, not the one at \<open>1\<close>, which is \<open>2\<close>.
\<close>

theorem tangent_interior_row_uses_last_parameter:
  "tangent (Arc 1 1 0 pi True) [0, pi / 2, pi] (1 / 10 ^ 10) =
     Inr [(0, 1, 0), (0, - 1, 0), (0, - 1, 0)] \<and>
   (tangent_x_point (Arc 1 1 0 pi True) (pi / 2) (1 / 10 ^ 10) True True,
    tangent_y_point (Arc 1 1 0 pi True) (pi / 2) (1 / 10 ^ 10) True True,
    tangent_z_point (Arc 1 1 0 pi True) (pi / 2) (1 / 10 ^ 10) True True) = (- 1, 0, 0) \<and>
   tangent (subclass_of_points (\<lambda>t. t * t) (\<lambda>t. t) (\<lambda>t. 0) 0 2) [0, 1, 2] 1 =
     Inr [(1, 1, 0), (4, 1, 0), (3, 1, 0)] \<and>
   tangent_x_point (subclass_of_points (\<lambda>t. t * t) (\<lambda>t. t) (\<lambda>t. 0) 0 2) 1 1 True True = 2"
  by (simp add: tangent_def Arc_def subclass_of_points_def base_tangent_point_def Let_def upt_rec)

lemma length_tangent_step_fold:
  assumes "k \<le> n - 1" "length sol0 = n" "length err0 = n"
    and "fold (length_tangent_step nodes P T) [0..<k] (sol0, err0, a, b) = (sol, err, ta, pa)"
  shows "length sol = n \<and> length err = n \<and>
         (\<forall>i<k. sol ! (i + 1) =
                  (nodes ! (i + 1) - nodes ! i) * (magnitude (T ! i) + magnitude (T ! (i + 1))) / 2 \<and>
                err ! (i + 1) = \<bar>sol ! (i + 1) - distance (P ! i) (P ! (i + 1))\<bar>) \<and>
         (\<forall>j. j = 0 \<or> k < j \<longrightarrow> sol ! j = sol0 ! j \<and> err ! j = err0 ! j)"
  using assms
proof (induction k arbitrary: sol err ta pa)
  case 0
  then show ?case by simp
next
  case (Suc k)
  obtain sol1 err1 ta1 pa1 where
    f: "fold (length_tangent_step nodes P T) [0..<k] (sol0, err0, a, b) = (sol1, err1, ta1, pa1)"
    by (metis prod_cases4)
  from Suc.prems have k: "k \<le> n - 1" and kn: "k + 1 < n" by simp_all
  from Suc.IH[OF k Suc.prems(2) Suc.prems(3) f] have
    l1: "length sol1 = n" "length err1 = n" and
    done1: "\<And>i. i < k \<Longrightarrow> sol1 ! (i + 1) =
                  (nodes ! (i + 1) - nodes ! i) * (magnitude (T ! i) + magnitude (T ! (i + 1))) / 2 \<and>
                err1 ! (i + 1) = \<bar>sol1 ! (i + 1) - distance (P ! i) (P ! (i + 1))\<bar>" and
    rest1: "\<And>j. j = 0 \<or> k < j \<Longrightarrow> sol1 ! j = sol0 ! j \<and> err1 ! j = err0 ! j"
    by auto
  from Suc.prems(4) f have
    step: "length_tangent_step nodes P T k (sol1, err1, ta1, pa1) = (sol, err, ta, pa)"
    by simp
  define rt where
    "rt = (nodes ! (k + 1) - nodes ! k) * (magnitude (T ! k) + magnitude (T ! (k + 1))) / 2"
  from step have
    sol: "sol = sol1[k + 1 := rt]" and
    err: "err = err1[k + 1 := \<bar>rt - distance (P ! k) (P ! (k + 1))\<bar>]"
    by (simp_all add: length_tangent_step_def Let_def rt_def)
  show ?case
  proof (intro conjI allI impI)
    show "length sol = n" "length err = n" using sol err l1 by simp_all
  next
    fix i assume "i < Suc k"
    then consider "i < k" | "i = k" by linarith
    then show "sol ! (i + 1) =
        (nodes ! (i + 1) - nodes ! i) * (magnitude (T ! i) + magnitude (T ! (i + 1))) / 2"
    proof cases
      case 1 then show ?thesis using done1[of i] sol by simp
    next
      case 2 then show ?thesis using sol l1 kn by (simp add: rt_def)
    qed
  next
    fix i assume "i < Suc k"
    then consider "i < k" | "i = k" by linarith
    then show "err ! (i + 1) = \<bar>sol ! (i + 1) - distance (P ! i) (P ! (i + 1))\<bar>"
    proof cases
      case 1 then show ?thesis using done1[of i] sol err by simp
    next
      case 2 then show ?thesis using sol err l1 kn by simp
    qed
  next
    fix j assume "j = 0 \<or> Suc k < j"
    then show "sol ! j = sol0 ! j" using rest1[of j] sol by auto
  next
    fix j assume "j = 0 \<or> Suc k < j"
    then show "err ! j = err0 ! j" using rest1[of j] err by auto
  qed
qed

text \<open>
  What one evaluation pass stores, in terms of the rows that the batched \<open>tangent\<close>
  returns for the nodes of the mesh: \<open>0\<close> in entry \<open>0\<close> of both arrays, and for every pair
  of consecutive nodes the trapezoid of the magnitudes of the two rows and its absolute
  difference from the chord.
\<close>

lemma length_tangent_mesh_result:
  assumes "physical_nodes m \<noteq> []"
  shows "\<exists>m' acc xyz_t.
           priv_length_tangent_mesh c m tangent_step = Inr (m', acc) \<and>
           tangent c (physical_nodes m) tangent_step = Inr xyz_t \<and>
           physical_nodes m' = physical_nodes m \<and>
           physical_step m' = physical_step m \<and>
           length (solution m') = length (physical_nodes m) \<and>
           length (residual m') = length (physical_nodes m) \<and>
           solution m' ! 0 = 0 \<and> residual m' ! 0 = 0 \<and>
           (\<forall>i. i + 1 < length (physical_nodes m) \<longrightarrow>
              solution m' ! (i + 1) =
                (physical_nodes m ! (i + 1) - physical_nodes m ! i) *
                (magnitude (xyz_t ! i) + magnitude (xyz_t ! (i + 1))) / 2 \<and>
              residual m' ! (i + 1) =
                \<bar>solution m' ! (i + 1) -
                 distance (generate_points c (physical_nodes m) ! i)
                          (generate_points c (physical_nodes m) ! (i + 1))\<bar>)"
proof -
  define nodes where "nodes = physical_nodes m"
  define n where "n = length nodes"
  define P where "P = generate_points c nodes"
  from assms have npos: "0 < n" unfolding n_def nodes_def by simp
  from tangent_rows[OF assms, of c tangent_step] obtain T where
    T: "tangent c nodes tangent_step = Inr T" unfolding nodes_def by blast
  define init where "init = (replicate n (0::real))[0 := 0]"
  obtain sol err ta pa where
    f: "fold (length_tangent_step nodes P T) [0..<n - 1] (init, init, 0, 0) = (sol, err, ta, pa)"
    by (metis prod_cases4)
  have li: "length init = n" unfolding init_def by simp
  from length_tangent_step_fold[OF le_refl li li f] have
    l: "length sol = n" "length err = n" and
    seg: "\<And>i. i < n - 1 \<Longrightarrow> sol ! (i + 1) =
                  (nodes ! (i + 1) - nodes ! i) * (magnitude (T ! i) + magnitude (T ! (i + 1))) / 2 \<and>
                err ! (i + 1) = \<bar>sol ! (i + 1) - distance (P ! i) (P ! (i + 1))\<bar>" and
    z: "sol ! 0 = init ! 0" "err ! 0 = init ! 0"
    by auto
  have z0: "init ! 0 = 0" unfolding init_def using npos by simp
  have eq: "priv_length_tangent_mesh c m tangent_step =
              Inr (m\<lparr>solution := sol, residual := err\<rparr>, ta)"
    using T f unfolding priv_length_tangent_mesh_def Let_def nodes_def[symmetric]
      n_def[symmetric] P_def[symmetric] init_def[symmetric]
    by simp
  show ?thesis
    unfolding nodes_def[symmetric] n_def[symmetric] P_def[symmetric]
    apply (rule exI[of _ "m\<lparr>solution := sol, residual := err\<rparr>"])
    apply (rule exI[of _ ta])
    apply (rule exI[of _ T])
    using eq T l seg z z0 by (simp add: nodes_def)
qed


lemma arc_rows:
  "tangent (Arc 2 1 0 pi True) [0, pi / 2, pi] (1 / 10 ^ 10) =
     Inr [(0, 1, 0), (0, - 1, 0), (0, - 1, 0)]"
  by (simp add: tangent_def Arc_def Let_def upt_rec)

text \<open>
  C3 does not hold of the code, by the defect of C1: the pass takes its tangent rows from
  the batched \<open>tangent\<close>, so at an interior node it uses the tangent at the last node.
  For the half ellipse \<open>Arc(2, 1)\<close> on the domain from \<open>0\<close> to \<open>pi\<close>, whose root mesh has
  the nodes \<open>0\<close>, \<open>pi / 2\<close>, \<open>pi\<close>, the pass stores \<open>pi / 2\<close> in \<open>solution[1]\<close>, where the
  trapezoid of the tangent magnitudes at \<open>0\<close> and at \<open>pi / 2\<close> is \<open>3 * pi / 4\<close>.
\<close>

theorem length_tangent_mesh_of_arc:
  "priv_length_tangent_mesh (Arc 2 1 0 pi True)
     \<lparr>physical_nodes = [0, pi / 2, pi], physical_step = pi / 2,
      solution = [0, 0, 0], residual = [0, 0, 0]\<rparr> (1 / 10 ^ 10) =
   Inr (\<lparr>physical_nodes = [0, pi / 2, pi], physical_step = pi / 2,
         solution = [0, pi / 2, pi / 2],
         residual = [0, \<bar>pi / 2 - sqrt 5\<bar>, \<bar>pi / 2 - sqrt 5\<bar>]\<rparr>, pi) \<and>
   (pi / 2 - 0) *
     (magnitude (tangent_x_point (Arc 2 1 0 pi True) 0 (1 / 10 ^ 10) False True,
                 tangent_y_point (Arc 2 1 0 pi True) 0 (1 / 10 ^ 10) False True,
                 tangent_z_point (Arc 2 1 0 pi True) 0 (1 / 10 ^ 10) False True) +
      magnitude (tangent_x_point (Arc 2 1 0 pi True) (pi / 2) (1 / 10 ^ 10) True True,
                 tangent_y_point (Arc 2 1 0 pi True) (pi / 2) (1 / 10 ^ 10) True True,
                 tangent_z_point (Arc 2 1 0 pi True) (pi / 2) (1 / 10 ^ 10) True True)) / 2 =
   3 * pi / 4"
proof -
  have e: "[0..<2] = [0, 1]" by (simp add: upt_rec)
  have l: "length [0, pi / 2, pi] - 1 = (2::nat)" by simp
  have p: "generate_points (Arc 2 1 0 pi True) [0, pi / 2, pi] = [(2, 0, 0), (0, 1, 0), (- 2, 0, 0)]"
    by (simp add: generate_points_def Arc_def Let_def)
  have d: "distance (2, 0, 0) (0, 1, 0) = sqrt 5" "distance (0, 1, 0) (- 2, 0, 0) = sqrt 5"
    by (simp_all add: distance_def Let_def)
  have m: "magnitude (0, 1, 0) = 1" "magnitude (0, - 1, 0) = 1" "magnitude (- 2, 0, 0) = 2"
    by (simp_all add: magnitude_def)
  have t: "(tangent_x_point (Arc 2 1 0 pi True) 0 (1 / 10 ^ 10) False True,
            tangent_y_point (Arc 2 1 0 pi True) 0 (1 / 10 ^ 10) False True,
            tangent_z_point (Arc 2 1 0 pi True) 0 (1 / 10 ^ 10) False True) = (0, 1, 0)"
          "(tangent_x_point (Arc 2 1 0 pi True) (pi / 2) (1 / 10 ^ 10) True True,
            tangent_y_point (Arc 2 1 0 pi True) (pi / 2) (1 / 10 ^ 10) True True,
            tangent_z_point (Arc 2 1 0 pi True) (pi / 2) (1 / 10 ^ 10) True True) = (- 2, 0, 0)"
    by (simp_all add: Arc_def Let_def)
  have pass: "priv_length_tangent_mesh (Arc 2 1 0 pi True)
     \<lparr>physical_nodes = [0, pi / 2, pi], physical_step = pi / 2,
      solution = [0, 0, 0], residual = [0, 0, 0]\<rparr> (1 / 10 ^ 10) =
   Inr (\<lparr>physical_nodes = [0, pi / 2, pi], physical_step = pi / 2,
         solution = [0, pi / 2, pi / 2],
         residual = [0, \<bar>pi / 2 - sqrt 5\<bar>, \<bar>pi / 2 - sqrt 5\<bar>]\<rparr>, pi)"
  proof -
    have f: "fold (length_tangent_step [0, pi / 2, pi] [(2, 0, 0), (0, 1, 0), (- 2, 0, 0)]
                     [(0, 1, 0), (0, - 1, 0), (0, - 1, 0)]) [0..<2]
               ((replicate 3 0)[0 := 0], (replicate 3 0)[0 := 0], 0, 0) =
             ([0, pi / 2, pi / 2], [0, \<bar>pi / 2 - sqrt 5\<bar>, \<bar>pi / 2 - sqrt 5\<bar>], pi, 2 * sqrt 5)"
      by (simp add: e length_tangent_step_def Let_def d m numeral_3_eq_3)
    have n: "length [0, pi / 2, pi] = (3::nat)" "(3::nat) - 1 = 2" by simp_all
    show ?thesis
      by (simp only: priv_length_tangent_mesh_def Let_def mesh.select_convs arc_rows p n f
          sum.case prod.case mesh.update_convs)
  qed
  show ?thesis unfolding t m using pass by simp
qed

subsection \<open>The reference collaborators keep the contract\<close>

lemma uniform_nodes_sorted:
  fixes lo hi :: real
  assumes "lo \<le> hi" "0 < n"
  shows "sorted (map (\<lambda>k. lo + (hi - lo) * real k / real n) [0..<Suc n])"
proof -
  have "lo + (hi - lo) * real i / real n \<le> lo + (hi - lo) * real j / real n" if "i \<le> j" for i j
  proof -
    have "(hi - lo) * real i \<le> (hi - lo) * real j"
      using assms(1) that by (intro mult_left_mono) simp_all
    then show ?thesis using assms(2) by (simp add: divide_right_mono)
  qed
  then show ?thesis
    by (simp del: upt_Suc add: sorted_iff_nth_mono)
qed

lemma mesh_contract_reference: "mesh_contract reference_collab"
proof -
  have "physical_nodes (uniform_mesh b1 b2 st) \<noteq> [] \<and>
        sorted (physical_nodes (uniform_mesh b1 b2 st)) \<and>
        hd (physical_nodes (uniform_mesh b1 b2 st)) = min b1 b2 \<and>
        last (physical_nodes (uniform_mesh b1 b2 st)) = max b1 b2" for b1 b2 st
  proof -
    define n where "n = (if st \<le> 0 \<or> max b1 b2 - min b1 b2 \<le> st then 1
                         else nat \<lceil>(max b1 b2 - min b1 b2) / st\<rceil>)"
    have npos: "0 < n"
    proof (cases "st \<le> 0 \<or> max b1 b2 - min b1 b2 \<le> st")
      case True then show ?thesis by (simp add: n_def)
    next
      case False
      then have "0 < st" "0 < max b1 b2 - min b1 b2" by linarith+
      then have "0 < (max b1 b2 - min b1 b2) / st" by (rule divide_pos_pos[rotated])
      then have "0 < \<lceil>(max b1 b2 - min b1 b2) / st\<rceil>" by simp
      then show ?thesis using False by (simp add: n_def)
    qed
    have nodes: "physical_nodes (uniform_mesh b1 b2 st) =
                   map (\<lambda>k. min b1 b2 + (max b1 b2 - min b1 b2) * real k / real n) [0..<Suc n]"
      unfolding uniform_mesh_def Let_def n_def by (simp only: mesh.select_convs)
    have s: "sorted (physical_nodes (uniform_mesh b1 b2 st))"
      unfolding nodes by (rule uniform_nodes_sorted) (use npos in simp_all)
    have h: "hd (physical_nodes (uniform_mesh b1 b2 st)) = min b1 b2"
      unfolding nodes by (simp add: hd_map upt_rec)
    have l: "last (physical_nodes (uniform_mesh b1 b2 st)) = max b1 b2"
      unfolding nodes using npos by (simp add: last_map)
    show ?thesis using s h l nodes by simp
  qed
  then show ?thesis by (simp add: mesh_contract_def reference_collab_def)
qed

lemma selector_contract_reference: "selector_contract reference_collab"
  by (auto simp: selector_contract_def reference_collab_def residual_intervals_def
      filter_empty_conv not_less)

lemma prune_contract_reference: "prune_contract reference_collab"
proof -
  have "prune_covered [ms] = [ms]" for ms
    by (simp add: prune_covered_def)
  moreover have "length tr = 1 \<Longrightarrow> \<exists>ms. tr = [ms]" for tr :: tree
    by (cases tr) simp_all
  ultimately have one: "length tr = 1 \<Longrightarrow> prune_covered tr = tr" for tr
    by metis
  show ?thesis
    using one by (auto simp: prune_contract_def reference_collab_def prune_covered_def)
qed

lemma flatten_contract_reference: "flatten_contract reference_collab"
  by (simp add: flatten_contract_def reference_collab_def concat_meshes_def)

subsection \<open>Termination of the refinement loop\<close>
















subsection \<open>Straight lines and degenerate domains\<close>

lemma chord_of_line:
  "sqrt ((a * d) * (a * d) + (b * d) * (b * d) + (c * d) * (c * d)) =
   \<bar>d\<bar> * sqrt (a * a + b * b + c * c)"
proof -
  have "(a * d) * (a * d) + (b * d) * (b * d) + (c * d) * (c * d) =
        (d * d) * (a * a + b * b + c * c)" by (simp add: algebra_simps)
  then have "sqrt ((a * d) * (a * d) + (b * d) * (b * d) + (c * d) * (c * d)) =
             sqrt (d * d) * sqrt (a * a + b * b + c * c)"
    by (simp only: real_sqrt_mult)
  then show ?thesis by simp
qed

lemma line_tangent_rows:
  assumes "t \<noteq> []" "tangent (Line origin a b c start0 stop0) t step = Inr rows" "i < length t"
  shows "rows ! i = (a, b, c)"
proof -
  from tangent_rows[OF assms(1), of "Line origin a b c start0 stop0" step] assms(2)
  have "\<forall>i<length t. rows ! i = (a, b, c)" by (simp add: Line_def)
  then show ?thesis using assms(3) by simp
qed

lemma line_pass:
  assumes "physical_nodes m \<noteq> []" "sorted (physical_nodes m)"
  shows "\<exists>m' acc.
           priv_length_tangent_mesh (Line origin a b c start0 stop0) m tangent_step = Inr (m', acc) \<and>
           physical_nodes m' = physical_nodes m \<and>
           length (solution m') = length (physical_nodes m) \<and>
           length (residual m') = length (physical_nodes m) \<and>
           solution m' ! 0 = 0 \<and>
           (\<forall>r\<in>set (residual m'). r = 0) \<and>
           (\<forall>i. i + 1 < length (physical_nodes m) \<longrightarrow>
              solution m' ! (i + 1) =
                (physical_nodes m ! (i + 1) - physical_nodes m ! i) * sqrt (a * a + b * b + c * c) \<and>
              solution m' ! (i + 1) =
                distance (generate_points (Line origin a b c start0 stop0) (physical_nodes m) ! i)
                         (generate_points (Line origin a b c start0 stop0) (physical_nodes m) ! (i + 1)))"
proof -
  let ?c = "Line origin a b c start0 stop0"
  let ?t = "physical_nodes m"
  let ?L = "sqrt (a * a + b * b + c * c)"
  from length_tangent_mesh_result[OF assms(1), of ?c tangent_step] obtain m' acc T where
    p: "priv_length_tangent_mesh ?c m tangent_step = Inr (m', acc)" and
    T: "tangent ?c ?t tangent_step = Inr T" and
    n: "physical_nodes m' = ?t" and
    l: "length (solution m') = length ?t" "length (residual m') = length ?t" and
    z: "solution m' ! 0 = 0" "residual m' ! 0 = 0" and
    seg: "\<And>i. i + 1 < length ?t \<Longrightarrow>
            solution m' ! (i + 1) =
              (?t ! (i + 1) - ?t ! i) * (magnitude (T ! i) + magnitude (T ! (i + 1))) / 2 \<and>
            residual m' ! (i + 1) =
              \<bar>solution m' ! (i + 1) -
               distance (generate_points ?c ?t ! i) (generate_points ?c ?t ! (i + 1))\<bar>"
    by blast
  have rows: "T ! i = (a, b, c)" if "i < length ?t" for i
    using line_tangent_rows[OF assms(1) T that] .
  have sol: "solution m' ! (i + 1) = (?t ! (i + 1) - ?t ! i) * ?L" if "i + 1 < length ?t" for i
    using seg[OF that] rows[of i] rows[of "i + 1"] that by (simp add: magnitude_def)
  have chord: "distance (generate_points ?c ?t ! i) (generate_points ?c ?t ! (i + 1)) =
               (?t ! (i + 1) - ?t ! i) * ?L" if "i + 1 < length ?t" for i
  proof -
    have "?t ! i \<le> ?t ! (i + 1)" using assms(2) that by (simp add: sorted_iff_nth_mono)
    then have d: "\<bar>?t ! (i + 1) - ?t ! i\<bar> = ?t ! (i + 1) - ?t ! i" by simp
    have "distance (generate_points ?c ?t ! i) (generate_points ?c ?t ! (i + 1)) =
          sqrt ((a * (?t ! (i + 1) - ?t ! i)) * (a * (?t ! (i + 1) - ?t ! i)) +
                (b * (?t ! (i + 1) - ?t ! i)) * (b * (?t ! (i + 1) - ?t ! i)) +
                (c * (?t ! (i + 1) - ?t ! i)) * (c * (?t ! (i + 1) - ?t ! i)))"
      using that by (simp add: distance_def generate_points_def Line_def Let_def algebra_simps)
    then show ?thesis by (simp only: chord_of_line d)
  qed
  have res: "r = 0" if "r \<in> set (residual m')" for r
  proof -
    from that obtain j where j: "j < length (residual m')" "r = residual m' ! j"
      by (auto simp: in_set_conv_nth)
    show ?thesis
    proof (cases j)
      case 0
      then show ?thesis using j z by simp
    next
      case (Suc i)
      then have "i + 1 < length ?t" using j l by simp
      then show ?thesis using seg[of i] sol[of i] chord[of i] j Suc by simp
    qed
  qed
  show ?thesis
    using p n l z(1) res sol chord by (intro exI[of _ m'] exI[of _ acc]) simp
qed

lemma constant_nodes:
  assumes "xs \<noteq> []" "sorted xs" "hd xs = s" "last xs = (s::real)"
  shows "\<forall>x\<in>set xs. x = s"
proof
  fix x assume "x \<in> set xs"
  then obtain i where i: "i < length xs" "x = xs ! i" by (auto simp: in_set_conv_nth)
  have "xs ! 0 \<le> xs ! i" using assms(2) i by (simp add: sorted_iff_nth_mono)
  moreover have "xs ! i \<le> xs ! (length xs - 1)" using assms(2) i by (simp add: sorted_iff_nth_mono)
  moreover have "xs ! 0 = s" using assms(1,3) by (simp add: hd_conv_nth)
  moreover have "xs ! (length xs - 1) = s" using assms(1,4) by (simp add: last_conv_nth)
  ultimately show "x = s" using i by simp
qed

lemma degenerate_pass:
  assumes "physical_nodes m \<noteq> []" "\<forall>t\<in>set (physical_nodes m). t = s"
  shows "\<exists>m' acc.
           priv_length_tangent_mesh c m tangent_step = Inr (m', acc) \<and>
           physical_nodes m' = physical_nodes m \<and>
           length (solution m') = length (physical_nodes m) \<and>
           (\<forall>r\<in>set (residual m'). r = 0) \<and>
           (\<forall>i<length (physical_nodes m). solution m' ! i = 0)"
proof -
  let ?t = "physical_nodes m"
  from length_tangent_mesh_result[OF assms(1), of c tangent_step] obtain m' acc T where
    p: "priv_length_tangent_mesh c m tangent_step = Inr (m', acc)" and
    n: "physical_nodes m' = ?t" and
    l: "length (solution m') = length ?t" "length (residual m') = length ?t" and
    z: "solution m' ! 0 = 0" "residual m' ! 0 = 0" and
    seg: "\<And>i. i + 1 < length ?t \<Longrightarrow>
            solution m' ! (i + 1) =
              (?t ! (i + 1) - ?t ! i) * (magnitude (T ! i) + magnitude (T ! (i + 1))) / 2 \<and>
            residual m' ! (i + 1) =
              \<bar>solution m' ! (i + 1) -
               distance (generate_points c ?t ! i) (generate_points c ?t ! (i + 1))\<bar>"
    by blast
  have same: "?t ! i = s" if "i < length ?t" for i using assms(2) that by simp
  have sol: "solution m' ! (i + 1) = 0" if "i + 1 < length ?t" for i
    using seg[OF that] same[of i] same[of "i + 1"] that by simp
  have chord: "distance (generate_points c ?t ! i) (generate_points c ?t ! (i + 1)) = 0"
    if "i + 1 < length ?t" for i
    using same[of i] same[of "i + 1"] that by (simp add: distance_def generate_points_def)
  have sol_all: "solution m' ! j = 0" if "j < length ?t" for j
    using that z sol by (cases j) simp_all
  have res: "r = 0" if "r \<in> set (residual m')" for r
  proof -
    from that obtain j where j: "j < length (residual m')" "r = residual m' ! j"
      by (auto simp: in_set_conv_nth)
    show ?thesis
    proof (cases j)
      case 0
      then show ?thesis using j z by simp
    next
      case (Suc i)
      then have "i + 1 < length ?t" using j l by simp
      then show ?thesis using seg[of i] sol[of i] chord[of i] j Suc by simp
    qed
  qed
  show ?thesis
    using p n l(1) res sol_all by (intro exI[of _ m'] exI[of _ acc]) simp
qed

lemma converges_in_first_pass:
  assumes "selector_contract L" "prune_contract L"
    and "0 < max_iterations"
    and "priv_length_tangent_mesh c
           (Mesh1DUniform L (start c) (stop c) ((stop c - start c) / 2)) tangent_step =
         Inr (m', acc)"
    and "\<forall>r\<in>set (residual m'). r \<le> precision"
  shows "mesh_tree L c precision max_iterations tangent_step = Some (Inr ([[m']], 1))"
proof -
  let ?root = "Mesh1DUniform L (start c) (stop c) ((stop c - start c) / 2)"
  have none: "refinement_points L m' precision = []"
    using assms(1,5) by (simp add: selector_contract_def)
  have keep: "remove_coarse_duplicates L [[m']] = [[m']]"
    using assms(2) by (simp add: prune_contract_def)
  have step: "refine_mesh L c precision tangent_step 0 0 [[?root]] = Inr ([[m']], 0)"
    using assms(4) none keep by (simp add: refine_mesh_def tree_level_def Let_def)
  have last: "sweep L c precision tangent_step 0 (Suc 0) [[m']] 0 = Some (Inr ([[m']], 0))"
    by (subst sweep.simps) (simp add: tree_level_def)
  have sw: "sweep L c precision tangent_step 0 0 [[?root]] 0 = Some (Inr ([[m']], 0))"
    using step last by (subst sweep.simps) (simp add: tree_level_def)
  show ?thesis
    unfolding mesh_tree_def Let_def TreeMesh1DUniform_def
    using assms(3) sw by (subst mesh_tree_loop.simps) simp
qed

lemma foldl_index_sum:
  "foldl (\<lambda>acc i. acc + f i) a [0..<n] = a + (\<Sum>i<n. (f i :: real))"
  by (induction n) simp_all

lemma length_of_single_mesh:
  assumes "flatten_contract L"
    and "mesh_tree L c precision max_iterations tangent_step = Some (Inr ([[m']], k))"
    and "length (solution m') = length (physical_nodes m')"
  shows "length_curve L c precision max_iterations tangent_step =
           Some (Inr (\<Sum>i<length (physical_nodes m'). solution m' ! i))"
  using assms by (simp add: length_curve_def flatten_contract_def Let_def foldl_index_sum)

lemma line_fields:
  "start (Line origin a b c start0 stop0) = start0"
  "stop (Line origin a b c start0 stop0) = stop0"
  by (simp_all add: Line_def)

lemma line_solution_sum:
  assumes "t \<noteq> []" "length sol = length t" "sol ! 0 = 0"
    and "\<forall>i. i + 1 < length t \<longrightarrow> sol ! (i + 1) = (t ! (i + 1) - t ! i) * (l::real)"
  shows "(\<Sum>i<length t. sol ! i) = (last t - hd t) * l"
proof -
  obtain n where n: "length t = Suc n" using assms(1) by (cases t) simp_all
  have "(\<Sum>i<Suc n. sol ! i) = sol ! 0 + (\<Sum>i<n. sol ! Suc i)"
    by (rule sum.lessThan_Suc_shift)
  also have "(\<Sum>i<n. sol ! Suc i) = (\<Sum>i<n. (t ! Suc i - t ! i) * l)"
    using assms(4) n by (intro sum.cong) simp_all
  also have "\<dots> = (\<Sum>i<n. t ! Suc i - t ! i) * l"
    by (simp add: sum_distrib_right)
  also have "(\<Sum>i<n. t ! Suc i - t ! i) = t ! n - t ! 0"
    by (rule sum_lessThan_telescope)
  finally have "(\<Sum>i<Suc n. sol ! i) = (t ! n - t ! 0) * l" using assms(3) by simp
  moreover have "last t = t ! n" using assms(1) n by (simp add: last_conv_nth)
  moreover have "hd t = t ! 0" using assms(1) by (simp add: hd_conv_nth)
  ultimately show ?thesis using n by simp
qed

text \<open>
  C2: for a \<open>Line\<close> with direction \<open>(a, b, c)\<close> on the domain from \<open>0\<close> to \<open>1\<close>, on every
  mesh (a non-empty ascending list of nodes) the evaluation pass stores a tangent
  estimate equal to the chord on every segment, so that every residual is \<open>0\<close>. With
  collaborators that keep their contract, a precision that is not negative and at
  least one iteration allowed, \<open>mesh_tree\<close> returns after its first pass with the root
  mesh alone, and \<open>length\<close> returns \<open>sqrt (a * a + b * b + c * c)\<close>.
\<close>

theorem line_length_exact:
  assumes "mesh_contract L" "selector_contract L" "prune_contract L" "flatten_contract L"
    and "0 \<le> precision" "0 < max_iterations"
  shows "(\<forall>m. physical_nodes m \<noteq> [] \<and> sorted (physical_nodes m) \<longrightarrow>
            (\<exists>m' acc.
               priv_length_tangent_mesh (Line origin a b c 0 1) m tangent_step = Inr (m', acc) \<and>
               (\<forall>r\<in>set (residual m'). r = 0) \<and>
               (\<forall>i. i + 1 < length (physical_nodes m) \<longrightarrow>
                  solution m' ! (i + 1) =
                    distance (generate_points (Line origin a b c 0 1) (physical_nodes m) ! i)
                             (generate_points (Line origin a b c 0 1) (physical_nodes m) ! (i + 1))))) \<and>
         (\<exists>m'. mesh_tree L (Line origin a b c 0 1) precision max_iterations tangent_step =
                  Some (Inr ([[m']], 1))) \<and>
         length_curve L (Line origin a b c 0 1) precision max_iterations tangent_step =
           Some (Inr (sqrt (a * a + b * b + c * c)))"
proof (intro conjI allI impI)
  fix m :: mesh assume "physical_nodes m \<noteq> [] \<and> sorted (physical_nodes m)"
  then show "\<exists>m' acc.
               priv_length_tangent_mesh (Line origin a b c 0 1) m tangent_step = Inr (m', acc) \<and>
               (\<forall>r\<in>set (residual m'). r = 0) \<and>
               (\<forall>i. i + 1 < length (physical_nodes m) \<longrightarrow>
                  solution m' ! (i + 1) =
                    distance (generate_points (Line origin a b c 0 1) (physical_nodes m) ! i)
                             (generate_points (Line origin a b c 0 1) (physical_nodes m) ! (i + 1)))"
    using line_pass[of m origin a b c 0 1 tangent_step] by blast
next
  let ?c = "Line origin a b c 0 1"
  let ?root = "Mesh1DUniform L 0 1 ((1 - 0) / 2)"
  have rn: "physical_nodes ?root \<noteq> []" "sorted (physical_nodes ?root)"
           "hd (physical_nodes ?root) = 0" "last (physical_nodes ?root) = 1"
    using assms(1) by (simp_all add: mesh_contract_def)
  from line_pass[OF rn(1,2), of origin a b c 0 1 tangent_step] obtain m' acc where
    p: "priv_length_tangent_mesh ?c ?root tangent_step = Inr (m', acc)" and
    n: "physical_nodes m' = physical_nodes ?root" and
    l: "length (solution m') = length (physical_nodes ?root)" and
    z: "solution m' ! 0 = 0" and
    res: "\<forall>r\<in>set (residual m'). r = 0" and
    sol: "\<forall>i. i + 1 < length (physical_nodes ?root) \<longrightarrow>
            solution m' ! (i + 1) =
              (physical_nodes ?root ! (i + 1) - physical_nodes ?root ! i) * sqrt (a * a + b * b + c * c)"
    by blast
  from res assms(5) have small: "\<forall>r\<in>set (residual m'). r \<le> precision" by auto
  have mt: "mesh_tree L ?c precision max_iterations tangent_step = Some (Inr ([[m']], 1))"
    using converges_in_first_pass[OF assms(2,3,6), of ?c tangent_step m' acc precision] p small
    by (simp add: line_fields)
  then show "\<exists>m'. mesh_tree L ?c precision max_iterations tangent_step = Some (Inr ([[m']], 1))"
    by blast
  have "(\<Sum>i<length (physical_nodes ?root). solution m' ! i) =
          (last (physical_nodes ?root) - hd (physical_nodes ?root)) * sqrt (a * a + b * b + c * c)"
    using rn(1) l z sol by (rule line_solution_sum)
  then have "(\<Sum>i<length (physical_nodes m'). solution m' ! i) = sqrt (a * a + b * b + c * c)"
    using rn(3,4) n by simp
  moreover have "length (solution m') = length (physical_nodes m')" using l n by simp
  ultimately show "length_curve L ?c precision max_iterations tangent_step =
           Some (Inr (sqrt (a * a + b * b + c * c)))"
    using length_of_single_mesh[OF assms(4) mt] by simp
qed

text \<open>
  C5: for a curve whose domain has \<open>start = stop\<close>, with collaborators that keep their
  contract, a precision that is not negative and at least one iteration allowed,
  \<open>mesh_tree\<close> returns after its first pass with a tree that holds the evaluated root mesh
  and nothing else (no refinement mesh is added), and \<open>length\<close> returns \<open>0\<close>.
\<close>

theorem degenerate_domain_length_zero:
  assumes "mesh_contract L" "selector_contract L" "prune_contract L" "flatten_contract L"
    and "start c = stop c" "0 \<le> precision" "0 < max_iterations"
  shows "\<exists>m' acc.
           priv_length_tangent_mesh c
             (Mesh1DUniform L (start c) (stop c) ((stop c - start c) / 2)) tangent_step =
             Inr (m', acc) \<and>
           mesh_tree L c precision max_iterations tangent_step = Some (Inr ([[m']], 1)) \<and>
           length_curve L c precision max_iterations tangent_step = Some (Inr 0)"
proof -
  let ?root = "Mesh1DUniform L (start c) (stop c) ((stop c - start c) / 2)"
  have rn: "physical_nodes ?root \<noteq> []" "sorted (physical_nodes ?root)"
           "hd (physical_nodes ?root) = stop c" "last (physical_nodes ?root) = stop c"
    using assms(1,5) by (simp_all add: mesh_contract_def)
  have same: "\<forall>t\<in>set (physical_nodes ?root). t = stop c"
    using rn by (rule constant_nodes)
  from degenerate_pass[OF rn(1) same, of c tangent_step] obtain m' acc where
    p: "priv_length_tangent_mesh c ?root tangent_step = Inr (m', acc)" and
    n: "physical_nodes m' = physical_nodes ?root" and
    l: "length (solution m') = length (physical_nodes ?root)" and
    res: "\<forall>r\<in>set (residual m'). r = 0" and
    sol: "\<forall>i<length (physical_nodes ?root). solution m' ! i = 0"
    by blast
  from res assms(6) have small: "\<forall>r\<in>set (residual m'). r \<le> precision" by auto
  have mt: "mesh_tree L c precision max_iterations tangent_step = Some (Inr ([[m']], 1))"
    using converges_in_first_pass[OF assms(2,3,7) p small] .
  have "(\<Sum>i<length (physical_nodes m'). solution m' ! i) = 0" using sol n by simp
  moreover have "length (solution m') = length (physical_nodes m')" using l n by simp
  ultimately have "length_curve L c precision max_iterations tangent_step = Some (Inr 0)"
    using length_of_single_mesh[OF assms(4) mt] by simp
  with p mt show ?thesis by blast
qed

subsection \<open>Instances\<close>


theorem line_length_exact_witness:
  "mesh_contract reference_collab \<and> selector_contract reference_collab \<and>
   prune_contract reference_collab \<and> flatten_contract reference_collab \<and>
   (0::real) \<le> 1 / 10 ^ 6 \<and> (0::nat) < 100 \<and>
   physical_nodes (uniform_mesh 0 1 (1 / 4)) \<noteq> [] \<and>
   sorted (physical_nodes (uniform_mesh 0 1 (1 / 4))) \<and>
   (\<exists>m' acc. priv_length_tangent_mesh (Line (0, 0, 0) 1 2 2 0 1) (uniform_mesh 0 1 (1 / 4))
                (1 / 10 ^ 10) = Inr (m', acc) \<and>
              (\<forall>r\<in>set (residual m'). r = 0)) \<and>
   (\<exists>m'. mesh_tree reference_collab (Line (0, 0, 0) 1 2 2 0 1) (1 / 10 ^ 6) 100 (1 / 10 ^ 10) =
            Some (Inr ([[m']], 1))) \<and>
   length_curve reference_collab (Line (0, 0, 0) 1 2 2 0 1) (1 / 10 ^ 6) 100 (1 / 10 ^ 10) =
     Some (Inr 3)"
proof -
  note ok = mesh_contract_reference selector_contract_reference prune_contract_reference
    flatten_contract_reference
  have p: "(0::real) \<le> 1 / 10 ^ 6" and i: "(0::nat) < 100" by simp_all
  have M: "physical_nodes (uniform_mesh 0 1 (1 / 4)) \<noteq> []"
          "sorted (physical_nodes (uniform_mesh 0 1 (1 / 4)))"
    using mesh_contract_reference by (simp_all add: mesh_contract_def reference_collab_def)
  have q: "sqrt (1 * 1 + 2 * 2 + 2 * 2) = (3::real)"
    using real_sqrt_abs[of 3] by simp
  note t = line_length_exact[OF ok p i, of "(0, 0, 0)" 1 2 2 "1 / 10 ^ 10"]
  from t M have a: "\<exists>m' acc. priv_length_tangent_mesh (Line (0, 0, 0) 1 2 2 0 1)
                (uniform_mesh 0 1 (1 / 4)) (1 / 10 ^ 10) = Inr (m', acc) \<and>
              (\<forall>r\<in>set (residual m'). r = 0)" by blast
  from t have b: "\<exists>m'. mesh_tree reference_collab (Line (0, 0, 0) 1 2 2 0 1) (1 / 10 ^ 6) 100
               (1 / 10 ^ 10) = Some (Inr ([[m']], 1))" by blast
  from t q have c: "length_curve reference_collab (Line (0, 0, 0) 1 2 2 0 1) (1 / 10 ^ 6) 100
               (1 / 10 ^ 10) = Some (Inr 3)" by simp
  show ?thesis using ok p i M a b c by simp
qed

theorem degenerate_domain_length_zero_witness:
  "mesh_contract reference_collab \<and> selector_contract reference_collab \<and>
   prune_contract reference_collab \<and> flatten_contract reference_collab \<and>
   start (ParametricCurve 0 0) = stop (ParametricCurve 0 0) \<and>
   (0::real) \<le> 1 / 10 ^ 6 \<and> (0::nat) < 100 \<and>
   (\<exists>m'. mesh_tree reference_collab (ParametricCurve 0 0) (1 / 10 ^ 6) 100 (1 / 10 ^ 10) =
            Some (Inr ([[m']], 1))) \<and>
   length_curve reference_collab (ParametricCurve 0 0) (1 / 10 ^ 6) 100 (1 / 10 ^ 10) = Some (Inr 0)"
proof -
  note ok = mesh_contract_reference selector_contract_reference prune_contract_reference
    flatten_contract_reference
  have s: "start (ParametricCurve 0 0) = stop (ParametricCurve 0 0)"
    by (simp add: ParametricCurve_def subclass_of_points_def)
  have p: "(0::real) \<le> 1 / 10 ^ 6" and i: "(0::nat) < 100" by simp_all
  note t = degenerate_domain_length_zero[OF ok s p i, of "1 / 10 ^ 10"]
  from t have b: "\<exists>m'. mesh_tree reference_collab (ParametricCurve 0 0) (1 / 10 ^ 6) 100
               (1 / 10 ^ 10) = Some (Inr ([[m']], 1))" by blast
  from t have c: "length_curve reference_collab (ParametricCurve 0 0) (1 / 10 ^ 6) 100
               (1 / 10 ^ 10) = Some (Inr 0)" by blast
  show ?thesis using ok s p i b c by simp
qed

end
